theory Spec2Isabelle
  imports Complex_Main
begin

section \<open>Uniformity score of a price series (processors/uniformity\_filter.py)\<close>

text \<open>
  The module holds two static methods of the class \<open>UniformityFilter\<close>:
  \<open>calculate\<close>, which scores how close the cumulative percentage-change curve of
  the trailing window of a price list is to a straight line, and
  \<open>get_score_category\<close>, which names a (score, gain) pair.

  Python floats are modelled as \<^typ>\<open>real\<close>: the arithmetic is exact, and
  \<open>round(x, 1)\<close> rounds the exact value to one decimal, ties to the even tenth.
  A second model of \<open>calculate\<close> leaves the float arithmetic abstract.
  Python ints are \<^typ>\<open>int\<close>. Every operation of the source that can raise
  (indexing, true division, \<open>math.sqrt\<close>) returns a sum, \<open>Inl\<close> the exception.
\<close>

subsection \<open>The Python operations the module uses\<close>

datatype py_error = IndexError | ZeroDivisionError | ValueError

text \<open>\<open>xs[i]\<close>: a negative index counts from the end, out of range raises.\<close>

definition getitem :: "'a list \<Rightarrow> int \<Rightarrow> py_error + 'a" where
  "getitem xs i =
     (let n = int (length xs);
          j = (if i < 0 then i + n else i)
      in if j < 0 \<or> n \<le> j then Inl IndexError else Inr (xs ! nat j))"

text \<open>
  \<open>xs[start:]\<close>: a negative start has the length added and is then clipped to 0,
  a start beyond the end is clipped to the length. Slicing never raises.
\<close>

definition slice_from :: "'a list \<Rightarrow> int \<Rightarrow> 'a list" where
  "slice_from xs start =
     (let n = int (length xs);
          s = (if start < 0 then max (start + n) 0 else min start n)
      in drop (nat s) xs)"

text \<open>\<open>a / b\<close> on floats raises on a zero divisor.\<close>

definition truediv :: "real \<Rightarrow> real \<Rightarrow> py_error + real" where
  "truediv a b = (if b = 0 then Inl ZeroDivisionError else Inr (a / b))"

text \<open>\<open>math.sqrt\<close> raises on a negative argument.\<close>

definition py_sqrt :: "real \<Rightarrow> py_error + real" where
  "py_sqrt x = (if x < 0 then Inl ValueError else Inr (sqrt x))"

text \<open>\<open>range(n)\<close> is empty for \<open>n \<le> 0\<close>.\<close>

definition py_range :: "int \<Rightarrow> int list" where
  "py_range n = map int [0..<nat n]"

text \<open>\<open>round(x, 1)\<close>: the nearest multiple of one tenth, a tie going to the even one.\<close>

definition round_half_even :: "real \<Rightarrow> int" where
  "round_half_even y =
     (let f = \<lfloor>y\<rfloor>; d = y - of_int f
      in if d < 1 / 2 then f
         else if 1 / 2 < d then f + 1
         else if even f then f else f + 1)"

definition round1 :: "real \<Rightarrow> real" where
  "round1 x = of_int (round_half_even (x * 10)) / 10"

subsection \<open>\<open>UniformityFilter.calculate\<close>\<close>

text \<open>
  Lines 20 to 23: the loop that appends, for each price of the window, its percentage
  change against the base price. The accumulator is the list built so far.
\<close>

fun pct_loop :: "real \<Rightarrow> real list \<Rightarrow> real list \<Rightarrow> py_error + real list" where
  "pct_loop base_price [] cumulative_pcts = Inr cumulative_pcts"
| "pct_loop base_price (price # rest) cumulative_pcts =
     (case truediv (price - base_price) base_price of
        Inl e \<Rightarrow> Inl e
      | Inr q \<Rightarrow> pct_loop base_price rest (cumulative_pcts @ [q * 100]))"

text \<open>
  Lines 36 to 39: the loop over \<open>range(period)\<close> that accumulates the pair
  \<open>(total_deviation, max_possible_deviation)\<close>.
\<close>

fun deviation_loop ::
  "real list \<Rightarrow> real list \<Rightarrow> real \<Rightarrow> int \<Rightarrow> int list \<Rightarrow> real \<times> real \<Rightarrow> py_error + real \<times> real"
where
  "deviation_loop cumulative_pcts ideal_line total_gain period [] acc = Inr acc"
| "deviation_loop cumulative_pcts ideal_line total_gain period (i # rest) acc =
     (case getitem cumulative_pcts i of
        Inl e \<Rightarrow> Inl e
      | Inr c \<Rightarrow>
          (case getitem ideal_line i of
             Inl e \<Rightarrow> Inl e
           | Inr d \<Rightarrow>
               deviation_loop cumulative_pcts ideal_line total_gain period rest
                 (fst acc + \<bar>c - d\<bar>,
                  snd acc + (if i < period - 1 then total_gain else 0))))"

text \<open>Lines 30 and 31: the ideal line, one point for each index of \<open>range(period)\<close>.\<close>

definition ideal_line_of :: "real \<Rightarrow> int \<Rightarrow> real list" where
  "ideal_line_of daily_uniform_gain period =
     map (\<lambda>i. of_int i * daily_uniform_gain) (py_range period)"

text \<open>Lines 41 to 49: from the two sums to the returned pair.\<close>

definition score_of :: "real \<Rightarrow> real \<Rightarrow> real \<Rightarrow> py_error + real \<times> real" where
  "score_of total_deviation max_possible_deviation total_gain =
     (case (if 0 < max_possible_deviation
            then truediv total_deviation max_possible_deviation
            else Inr 0) of
        Inl e \<Rightarrow> Inl e
      | Inr normalized_deviation \<Rightarrow>
          (case py_sqrt (min normalized_deviation 1) of
             Inl e \<Rightarrow> Inl e
           | Inr r \<Rightarrow>
               (let raw_score = 100 * (1 - r);
                    uniformity_score = min 100 (max 0 (round1 raw_score))
                in Inr (uniformity_score, round1 total_gain))))"

text \<open>The whole method, lines 9 to 49, branch for branch.\<close>

definition calculate :: "real list \<Rightarrow> int \<Rightarrow> py_error + real \<times> real" where
  "calculate prices period =
     (if int (length prices) < period then Inr (0, 0)
      else
        let prices_period = slice_from prices (- period) in
        case getitem prices_period 0 of
          Inl e \<Rightarrow> Inl e
        | Inr base_price \<Rightarrow>
            if base_price \<le> 0 then Inr (0, 0)
            else
              (case pct_loop base_price prices_period [] of
                 Inl e \<Rightarrow> Inl e
               | Inr cumulative_pcts \<Rightarrow>
                   (case getitem cumulative_pcts (- 1) of
                      Inl e \<Rightarrow> Inl e
                    | Inr total_gain \<Rightarrow>
                        if total_gain \<le> 0 then Inr (0, round1 total_gain)
                        else
                          (case truediv total_gain (of_int (period - 1)) of
                             Inl e \<Rightarrow> Inl e
                           | Inr daily_uniform_gain \<Rightarrow>
                               (case deviation_loop cumulative_pcts
                                       (ideal_line_of daily_uniform_gain period)
                                       total_gain period (py_range period) (0, 0) of
                                  Inl e \<Rightarrow> Inl e
                                | Inr (total_deviation, max_possible_deviation) \<Rightarrow>
                                    score_of total_deviation max_possible_deviation
                                      total_gain)))))"

subsection \<open>\<open>UniformityFilter.calculate\<close> over an arbitrary float arithmetic\<close>

text \<open>
  Python computes on IEEE doubles, which the reals above idealise: a double result
  may differ from the exact one in the last place, and so may a rounded gain at a
  tie. What the method does by its control flow alone does not depend on that, and
  is stated once for every arithmetic: \<open>calculate_on\<close> is the same method, line for
  line, with the float operations taken from a record.
\<close>

text \<open>
  The operations on floats that the method uses. An int operand (\<open>0\<close>, \<open>1\<close>, \<open>100\<close>,
  \<open>period - 1\<close>, the loop index) is converted to a float first, as Python does.
\<close>

record 'f float_ops =
  of_py_int :: "int \<Rightarrow> 'f"
  fsub :: "'f \<Rightarrow> 'f \<Rightarrow> 'f"
  fadd :: "'f \<Rightarrow> 'f \<Rightarrow> 'f"
  fmul :: "'f \<Rightarrow> 'f \<Rightarrow> 'f"
  fdiv :: "'f \<Rightarrow> 'f \<Rightarrow> py_error + 'f"
  fabs :: "'f \<Rightarrow> 'f"
  fsqrt :: "'f \<Rightarrow> py_error + 'f"
  fround1 :: "'f \<Rightarrow> 'f"
  fle :: "'f \<Rightarrow> 'f \<Rightarrow> bool"
  flt :: "'f \<Rightarrow> 'f \<Rightarrow> bool"

text \<open>The exact arithmetic of the model above is one such record.\<close>

definition real_ops :: "real float_ops" where
  "real_ops =
     \<lparr>of_py_int = of_int, fsub = (-), fadd = (+), fmul = (*), fdiv = truediv, fabs = abs,
      fsqrt = py_sqrt, fround1 = round1, fle = (\<le>), flt = (<)\<rparr>"

text \<open>
  \<open>min(a, b)\<close> returns \<open>b\<close> when \<open>b < a\<close> and \<open>a\<close> otherwise; \<open>max(a, b)\<close> returns \<open>b\<close>
  when \<open>b > a\<close> and \<open>a\<close> otherwise.
\<close>

definition py_min :: "'f float_ops \<Rightarrow> 'f \<Rightarrow> 'f \<Rightarrow> 'f" where
  "py_min ops a b = (if flt ops b a then b else a)"

definition py_max :: "'f float_ops \<Rightarrow> 'f \<Rightarrow> 'f \<Rightarrow> 'f" where
  "py_max ops a b = (if flt ops a b then b else a)"

text \<open>Lines 20 to 23, lines 36 to 39, lines 41 to 49 and the whole method, as above.\<close>

fun pct_loop_on :: "'f float_ops \<Rightarrow> 'f \<Rightarrow> 'f list \<Rightarrow> 'f list \<Rightarrow> py_error + 'f list" where
  "pct_loop_on ops base_price [] cumulative_pcts = Inr cumulative_pcts"
| "pct_loop_on ops base_price (price # rest) cumulative_pcts =
     (case fdiv ops (fsub ops price base_price) base_price of
        Inl e \<Rightarrow> Inl e
      | Inr q \<Rightarrow>
          pct_loop_on ops base_price rest
            (cumulative_pcts @ [fmul ops q (of_py_int ops 100)]))"

fun deviation_loop_on ::
  "'f float_ops \<Rightarrow> 'f list \<Rightarrow> 'f list \<Rightarrow> 'f \<Rightarrow> int \<Rightarrow> int list \<Rightarrow> 'f \<times> 'f \<Rightarrow> py_error + 'f \<times> 'f"
where
  "deviation_loop_on ops cumulative_pcts ideal_line total_gain period [] acc = Inr acc"
| "deviation_loop_on ops cumulative_pcts ideal_line total_gain period (i # rest) acc =
     (case getitem cumulative_pcts i of
        Inl e \<Rightarrow> Inl e
      | Inr c \<Rightarrow>
          (case getitem ideal_line i of
             Inl e \<Rightarrow> Inl e
           | Inr d \<Rightarrow>
               deviation_loop_on ops cumulative_pcts ideal_line total_gain period rest
                 (fadd ops (fst acc) (fabs ops (fsub ops c d)),
                  fadd ops (snd acc)
                    (if i < period - 1 then total_gain else of_py_int ops 0))))"

definition score_on :: "'f float_ops \<Rightarrow> 'f \<Rightarrow> 'f \<Rightarrow> 'f \<Rightarrow> py_error + 'f \<times> 'f" where
  "score_on ops total_deviation max_possible_deviation total_gain =
     (case (if flt ops (of_py_int ops 0) max_possible_deviation
            then fdiv ops total_deviation max_possible_deviation
            else Inr (of_py_int ops 0)) of
        Inl e \<Rightarrow> Inl e
      | Inr normalized_deviation \<Rightarrow>
          (case fsqrt ops (py_min ops normalized_deviation (of_py_int ops 1)) of
             Inl e \<Rightarrow> Inl e
           | Inr r \<Rightarrow>
               (let raw_score = fmul ops (of_py_int ops 100) (fsub ops (of_py_int ops 1) r);
                    uniformity_score =
                      py_min ops (of_py_int ops 100)
                        (py_max ops (of_py_int ops 0) (fround1 ops raw_score))
                in Inr (uniformity_score, fround1 ops total_gain))))"

definition calculate_on :: "'f float_ops \<Rightarrow> 'f list \<Rightarrow> int \<Rightarrow> py_error + 'f \<times> 'f" where
  "calculate_on ops prices period =
     (if int (length prices) < period then Inr (of_py_int ops 0, of_py_int ops 0)
      else
        let prices_period = slice_from prices (- period) in
        case getitem prices_period 0 of
          Inl e \<Rightarrow> Inl e
        | Inr base_price \<Rightarrow>
            if fle ops base_price (of_py_int ops 0)
            then Inr (of_py_int ops 0, of_py_int ops 0)
            else
              (case pct_loop_on ops base_price prices_period [] of
                 Inl e \<Rightarrow> Inl e
               | Inr cumulative_pcts \<Rightarrow>
                   (case getitem cumulative_pcts (- 1) of
                      Inl e \<Rightarrow> Inl e
                    | Inr total_gain \<Rightarrow>
                        if fle ops total_gain (of_py_int ops 0)
                        then Inr (of_py_int ops 0, fround1 ops total_gain)
                        else
                          (case fdiv ops total_gain (of_py_int ops (period - 1)) of
                             Inl e \<Rightarrow> Inl e
                           | Inr daily_uniform_gain \<Rightarrow>
                               (case deviation_loop_on ops cumulative_pcts
                                       (map (\<lambda>i. fmul ops (of_py_int ops i) daily_uniform_gain)
                                          (py_range period))
                                       total_gain period (py_range period)
                                       (of_py_int ops 0, of_py_int ops 0) of
                                  Inl e \<Rightarrow> Inl e
                                | Inr (total_deviation, max_possible_deviation) \<Rightarrow>
                                    score_on ops total_deviation max_possible_deviation
                                      total_gain)))))"

subsection \<open>\<open>UniformityFilter.get_score_category\<close>\<close>

text \<open>
  The returned strings end in a space and a pictograph. A string is a list of bytes
  here, so each pictograph is written as its UTF-8 encoding; equality of two strings
  is the same on bytes as on Python's code points.
\<close>

definition chart_down :: string where
  "chart_down = [CHR 0xF0, CHR 0x9F, CHR 0x93, CHR 0x89]"

definition trophy :: string where
  "trophy = [CHR 0xF0, CHR 0x9F, CHR 0x8F, CHR 0x86]"

definition chart_up :: string where
  "chart_up = [CHR 0xF0, CHR 0x9F, CHR 0x93, CHR 0x88]"

definition bar_chart :: string where
  "bar_chart = [CHR 0xF0, CHR 0x9F, CHR 0x93, CHR 0x8A]"

definition warning_sign :: string where
  "warning_sign = [CHR 0xE2, CHR 0x9A, CHR 0xA0, CHR 0xEF, CHR 0xB8, CHR 0x8F]"

definition cross_mark :: string where
  "cross_mark = [CHR 0xE2, CHR 0x9D, CHR 0x8C]"

definition get_score_category :: "real \<Rightarrow> real \<Rightarrow> string" where
  "get_score_category score gain =
     (if gain \<le> 0 then ''Negative Return '' @ chart_down
      else if 90 \<le> score then ''Perfect '' @ trophy
      else if 75 \<le> score then ''Excellent '' @ chart_up
      else if 60 \<le> score then ''Good '' @ bar_chart
      else if 45 \<le> score then ''Fair '' @ chart_down
      else if 20 \<le> score then ''Poor '' @ warning_sign
      else ''Bad '' @ cross_mark)"

section \<open>Properties\<close>

subsection \<open>The Python operations\<close>

lemma getitem_zero: "xs \<noteq> [] \<Longrightarrow> getitem xs 0 = Inr (hd xs)"
  by (cases xs) (simp_all add: getitem_def)

lemma getitem_last: "xs \<noteq> [] \<Longrightarrow> getitem xs (- 1) = Inr (last xs)"
  by (simp add: getitem_def Let_def last_conv_nth nat_diff_distrib')

lemma slice_window:
  assumes "0 < period" "period \<le> int (length prices)"
  shows "slice_from prices (- period) = drop (length prices - nat period) prices"
  using assms by (simp add: slice_from_def Let_def nat_diff_distrib' max_def)

lemma pct_loop_map:
  "base_price \<noteq> 0 \<Longrightarrow>
   pct_loop base_price xs acc = Inr (acc @ map (\<lambda>p. (p - base_price) / base_price * 100) xs)"
  by (induction xs arbitrary: acc) (simp_all add: truediv_def)

lemma deviation_loop_sums:
  assumes "\<forall>i \<in> set ixs. 0 \<le> i \<and> i < int (length cum) \<and> i < int (length ideal)"
  shows "deviation_loop cum ideal tg period ixs acc =
         Inr (fst acc + (\<Sum>i\<leftarrow>ixs. \<bar>cum ! nat i - ideal ! nat i\<bar>),
              snd acc + (\<Sum>i\<leftarrow>ixs. if i < period - 1 then tg else 0))"
  using assms
  by (induction ixs arbitrary: acc) (simp_all add: getitem_def Let_def add.assoc)

lemma const_sum_upt:
  "m \<le> k \<Longrightarrow> (\<Sum>i\<leftarrow>[0..<m]. if i < k then tg else (0::real)) = of_nat m * tg"
  by (induction m) (simp_all add: algebra_simps)

lemma max_sum:
  assumes "0 < period"
  shows "(\<Sum>i\<leftarrow>py_range period. if i < period - 1 then tg else 0) = (tg::real) * of_int (period - 1)"
proof -
  obtain m where m: "nat period = Suc m" using assms by (cases "nat period") auto
  then have p: "period = int m + 1" using assms by linarith
  have "(\<Sum>i\<leftarrow>py_range period. if i < period - 1 then tg else 0)
      = (\<Sum>i\<leftarrow>[0..<Suc m]. if i < m then tg else 0)"
    unfolding py_range_def m by (simp add: p comp_def)
  also have "\<dots> = (\<Sum>i\<leftarrow>[0..<m]. if i < m then tg else 0)" by simp
  also have "\<dots> = of_nat m * tg" by (simp add: const_sum_upt)
  finally show ?thesis by (simp add: p)
qed

lemma window_length:
  assumes "0 < period" "period \<le> int (length prices)"
  shows "length (slice_from prices (- period)) = nat period"
  using assms by (simp add: slice_window)

lemma window_nonempty:
  assumes "0 < period" "period \<le> int (length prices)"
  shows "slice_from prices (- period) \<noteq> []"
  using window_length [OF assms] assms by auto

lemma window_hd:
  assumes "0 < period" "period \<le> int (length prices)"
  shows "hd (slice_from prices (- period)) = prices ! (length prices - nat period)"
  using assms by (simp add: slice_window hd_drop_conv_nth)

lemma window_last:
  assumes "0 < period" "period \<le> int (length prices)"
  shows "last (slice_from prices (- period)) = last prices"
  using assms by (simp add: slice_window)

lemma ideal_line_length: "length (ideal_line_of d period) = nat period"
  by (simp add: ideal_line_of_def py_range_def)

lemma py_range_bounds: "i \<in> set (py_range period) \<Longrightarrow> 0 \<le> i \<and> i < period"
  by (auto simp: py_range_def)

lemma calculate_normal:
  assumes per: "0 < period" "period \<le> int (length prices)"
    and w: "w = slice_from prices (- period)"
    and base: "0 < hd w"
    and cum: "cum = map (\<lambda>p. (p - hd w) / hd w * 100) w"
    and tg: "tg = last cum" "0 < tg"
  shows "2 \<le> period"
    and "calculate prices period =
         score_of (\<Sum>i\<leftarrow>py_range period.
                     \<bar>cum ! nat i - ideal_line_of (tg / of_int (period - 1)) period ! nat i\<bar>)
                  (tg * of_int (period - 1)) tg"
proof -
  have len: "length w = nat period" and ne: "w \<noteq> []"
    using window_length [OF per] window_nonempty [OF per] w by simp_all
  have g0: "getitem w 0 = Inr (hd w)" using ne by (rule getitem_zero)
  have pl: "pct_loop (hd w) w [] = Inr cum"
    using base by (simp add: pct_loop_map cum)
  have cne: "cum \<noteq> []" using ne cum by simp
  have gl: "getitem cum (- 1) = Inr tg" using cne tg by (simp add: getitem_last)
  have tgv: "tg = (last w - hd w) / hd w * 100"
    using ne by (simp add: tg cum last_map)
  show two: "2 \<le> period"
  proof (rule ccontr)
    assume "\<not> 2 \<le> period"
    with per have "period = 1" by simp
    with len have "length w = 1" by simp
    then obtain x where "w = [x]" by (cases w) auto
    with tgv have "tg = 0" by simp
    with tg show False by simp
  qed
  then have td: "truediv tg (of_int (period - 1)) = Inr (tg / of_int (period - 1))"
    by (simp add: truediv_def)
  have idx: "\<forall>i \<in> set (py_range period). 0 \<le> i \<and> i < int (length cum)
       \<and> i < int (length (ideal_line_of (tg / of_int (period - 1)) period))"
    using py_range_bounds [of _ period] per by (auto simp: cum len ideal_line_length)
  have dl: "deviation_loop cum (ideal_line_of (tg / of_int (period - 1)) period) tg period
              (py_range period) (0, 0) =
            Inr (\<Sum>i\<leftarrow>py_range period.
                     \<bar>cum ! nat i - ideal_line_of (tg / of_int (period - 1)) period ! nat i\<bar>,
                 tg * of_int (period - 1))"
    using deviation_loop_sums [OF idx, of tg period "(0, 0)"] max_sum [OF per(1), of tg]
    by simp
  show "calculate prices period =
         score_of (\<Sum>i\<leftarrow>py_range period.
                     \<bar>cum ! nat i - ideal_line_of (tg / of_int (period - 1)) period ! nat i\<bar>)
                  (tg * of_int (period - 1)) tg"
    using per base tg(2) td dl
    by (simp add: calculate_def Let_def w [symmetric] g0 pl gl)
qed

lemma round1_of_int: "round1 (of_int k) = of_int k"
proof -
  have "of_int k * (10::real) = of_int (k * 10)" by simp
  then have "round_half_even (of_int k * 10) = k * 10"
    unfolding round_half_even_def Let_def by (simp only: floor_of_int) simp
  then show ?thesis by (simp add: round1_def)
qed

lemma round1_zero: "round1 0 = 0"
  using round1_of_int [of 0] by simp

lemma round1_hundred: "round1 100 = 100"
  using round1_of_int [of 100] by simp

lemma score_of_range:
  assumes "0 \<le> td"
  shows "\<exists>s. score_of td mpd tg = Inr (s, round1 tg) \<and> 0 \<le> s \<and> s \<le> 100"
proof -
  define nd where "nd = (if 0 < mpd then td / mpd else 0)"
  have nd: "0 \<le> nd" using assms by (simp add: nd_def)
  have "(if 0 < mpd then truediv td mpd else Inr 0) = Inr nd"
    by (simp add: nd_def truediv_def)
  moreover have "py_sqrt (min nd 1) = Inr (sqrt (min nd 1))"
    using nd by (simp add: py_sqrt_def)
  ultimately have "score_of td mpd tg =
      Inr (min 100 (max 0 (round1 (100 * (1 - sqrt (min nd 1))))), round1 tg)"
    by (simp add: score_of_def Let_def)
  then show ?thesis by simp
qed

lemma score_of_zero:
  assumes "0 < mpd"
  shows "score_of 0 mpd tg = Inr (100, round1 tg)"
  using assms by (simp add: score_of_def truediv_def py_sqrt_def round1_hundred)

lemma calculate_short: "int (length prices) < period \<Longrightarrow> calculate prices period = Inr (0, 0)"
  by (simp add: calculate_def)

lemma getitem_neg_period:
  assumes "0 < period" "period \<le> int (length prices)"
  shows "getitem prices (- period) = Inr (prices ! (length prices - nat period))"
  using assms by (simp add: getitem_def Let_def nat_diff_distrib')

lemma window_base:
  assumes "0 < period" "period \<le> int (length prices)"
  shows "getitem (slice_from prices (- period)) 0 = Inr (prices ! (length prices - nat period))"
  using getitem_zero [OF window_nonempty [OF assms]] window_hd [OF assms] by simp

lemma calculate_bad_base:
  assumes "0 < period" "period \<le> int (length prices)"
    and "prices ! (length prices - nat period) \<le> 0"
  shows "calculate prices period = Inr (0, 0)"
  using assms by (simp add: calculate_def Let_def window_base)

lemma calculate_loss:
  assumes per: "0 < period" "period \<le> int (length prices)"
    and b: "b = prices ! (length prices - nat period)" "0 < b"
    and g: "(last prices - b) / b * 100 \<le> 0"
  shows "calculate prices period = Inr (0, round1 ((last prices - b) / b * 100))"
proof -
  define w where "w = slice_from prices (- period)"
  define cum where "cum = map (\<lambda>p. (p - b) / b * 100) w"
  define tg where "tg = (last prices - b) / b * 100"
  have ne: "w \<noteq> []" using window_nonempty [OF per] by (simp add: w_def)
  have g0: "getitem w 0 = Inr b" using window_base [OF per] by (simp add: w_def b)
  have pl: "pct_loop b w [] = Inr cum"
    using b unfolding cum_def by (simp add: pct_loop_map)
  have "last cum = tg"
    using ne window_last [OF per] unfolding cum_def tg_def w_def by (simp add: last_map)
  moreover have "cum \<noteq> []" using ne by (simp add: cum_def)
  ultimately have gl: "getitem cum (- 1) = Inr tg" by (simp add: getitem_last)
  have "tg \<le> 0" using g by (simp add: tg_def)
  then have "calculate prices period = Inr (0, round1 tg)"
    using per b(2) by (simp add: calculate_def Let_def w_def [symmetric] g0 pl gl)
  then show ?thesis by (simp only: tg_def)
qed

lemma sum_abs_nonneg: "0 \<le> (\<Sum>i\<leftarrow>ixs. \<bar>f i\<bar> :: real)"
  by (rule sum_list_nonneg) auto

lemma calculate_total:
  assumes "0 < period"
  shows "\<exists>s g. calculate prices period = Inr (s, g) \<and> 0 \<le> s \<and> s \<le> 100"
proof (cases "int (length prices) < period")
  case True
  then show ?thesis by (simp add: calculate_short)
next
  case False
  then have per: "0 < period" "period \<le> int (length prices)" using assms by simp_all
  define w where "w = slice_from prices (- period)"
  define b where "b = prices ! (length prices - nat period)"
  have hd: "hd w = b" using window_hd [OF per] by (simp add: w_def b_def)
  define cum where "cum = map (\<lambda>p. (p - hd w) / hd w * 100) w"
  define tg where "tg = last cum"
  have ne: "w \<noteq> []" using window_nonempty [OF per] by (simp add: w_def)
  have "last w = last prices" using window_last [OF per] by (simp add: w_def)
  then have tgv: "tg = (last prices - b) / b * 100"
    using ne unfolding tg_def cum_def hd by (simp add: last_map)
  show ?thesis
  proof (cases "b \<le> 0")
    case True
    then show ?thesis using calculate_bad_base [OF per] by (simp add: b_def)
  next
    case bpos: False
    show ?thesis
    proof (cases "tg \<le> 0")
      case True
      then show ?thesis
        using calculate_loss [OF per b_def] bpos by (simp add: tgv)
    next
      case False
      then have "calculate prices period =
         score_of (\<Sum>i\<leftarrow>py_range period.
                     \<bar>cum ! nat i - ideal_line_of (tg / of_int (period - 1)) period ! nat i\<bar>)
                  (tg * of_int (period - 1)) tg"
        using calculate_normal(2) [OF per w_def _ cum_def tg_def] bpos hd by simp
      then show ?thesis
        using score_of_range [OF sum_abs_nonneg] by metis
    qed
  qed
qed

subsection \<open>Degenerate inputs, range and totality\<close>

text \<open>
  Claim C1. For a positive \<open>period\<close>: when the list is shorter than \<open>period\<close>, or
  when it is long enough and the oldest price of the window, \<open>prices[-period]\<close>, is
  not positive, \<open>calculate\<close> returns the pair \<open>(0, 0)\<close> and raises nothing.
\<close>

theorem degenerate_inputs_return_zero:
  assumes "0 < period"
    and "int (length prices) < period \<or>
         (period \<le> int (length prices) \<and> getitem prices (- period) = Inr b \<and> b \<le> 0)"
  shows "calculate prices period = Inr (0, 0)"
proof (cases "int (length prices) < period")
  case True
  then show ?thesis by (rule calculate_short)
next
  case False
  with assms have per: "0 < period" "period \<le> int (length prices)"
    and b: "getitem prices (- period) = Inr b" "b \<le> 0" by auto
  from b have "prices ! (length prices - nat period) \<le> 0"
    by (simp add: getitem_neg_period [OF per])
  then show ?thesis by (rule calculate_bad_base [OF per])
qed

theorem degenerate_inputs_return_zero_witness:
  "calculate (replicate 10 5) 30 = Inr (0, 0) \<and>
   getitem (0 # replicate 29 10) (- 30) = Inr (0::real) \<and>
   calculate (0 # replicate 29 10) 30 = Inr (0, 0)"
proof -
  have g: "getitem (0 # replicate 29 10) (- 30) = Inr (0::real)"
    by (simp add: getitem_def)
  have "calculate (replicate 10 5) 30 = Inr (0, 0)"
    using degenerate_inputs_return_zero [of 30 "replicate 10 5" 0] by simp
  moreover have "calculate (0 # replicate 29 10) 30 = Inr (0, 0)"
    using degenerate_inputs_return_zero [of 30 "0 # replicate 29 10" 0] g by simp
  ultimately show ?thesis using g by simp
qed

text \<open>
  Claim C3. For every list and every positive \<open>period\<close>, \<open>calculate\<close> returns a
  pair whose score lies between 0 and 100, both included.
\<close>

theorem score_in_range:
  assumes "0 < period"
  shows "\<exists>s g. calculate prices period = Inr (s, g) \<and> 0 \<le> s \<and> s \<le> 100"
  using assms by (rule calculate_total)

text \<open>
  Claim C5. For every list and every positive \<open>period\<close>, \<open>calculate\<close> returns a
  pair: no index is out of range, no divisor is zero (also for \<open>period = 1\<close>, where
  \<open>period - 1\<close> is zero) and no square root is taken of a negative number.
\<close>

theorem calculate_never_raises:
  assumes "0 < period"
  shows "\<exists>r. calculate prices period = Inr r"
  using calculate_total [OF assms] by blast

theorem calculate_never_raises_witness:
  "\<exists>r. calculate [5] 1 = Inr r"
  using calculate_never_raises [of 1 "[5]"] by simp

text \<open>
  Claim C9. For every non-empty list, \<open>calculate(prices, 1)\<close> returns \<open>(0, 0)\<close>.
\<close>

theorem single_sample_window:
  assumes "prices \<noteq> []"
  shows "calculate prices 1 = Inr (0, 0)"
proof -
  have per: "(0::int) < 1" "1 \<le> int (length prices)" using assms by (simp_all add: Suc_leI)
  define b where "b = prices ! (length prices - nat 1)"
  have bl: "b = last prices" using assms by (simp add: b_def last_conv_nth)
  show ?thesis
  proof (cases "b \<le> 0")
    case True
    then show ?thesis using calculate_bad_base [OF per] by (simp add: b_def)
  next
    case False
    then show ?thesis
      using calculate_loss [OF per b_def] by (simp add: bl round1_zero)
  qed
qed

theorem single_sample_window_witness:
  "calculate [3, 7] 1 = Inr (0, 0)"
  using single_sample_window [of "[3, 7]"] by simp

subsection \<open>The normalization step\<close>

lemma deviation_loop_window:
  assumes "0 < period" "length cum = nat period"
  shows "deviation_loop cum (ideal_line_of d period) tg period (py_range period) (0, 0) =
         Inr (\<Sum>i\<leftarrow>py_range period. \<bar>cum ! nat i - ideal_line_of d period ! nat i\<bar>,
              tg * of_int (period - 1))"
proof -
  have idx: "\<forall>i \<in> set (py_range period). 0 \<le> i \<and> i < int (length cum)
       \<and> i < int (length (ideal_line_of d period))"
    using py_range_bounds [of _ period] assms by (auto simp: ideal_line_length)
  show ?thesis
    using deviation_loop_sums [OF idx, of tg period "(0, 0)"] max_sum [OF assms(1), of tg]
    by simp
qed

lemma source_path:
  assumes per: "0 < period" "period \<le> int (length prices)"
    and w: "w = slice_from prices (- period)"
    and g0: "getitem w 0 = Inr base_price" and base: "0 < base_price"
    and pl: "pct_loop base_price w [] = Inr cum"
    and gl: "getitem cum (- 1) = Inr tg"
  shows "hd w = base_price"
    and "cum = map (\<lambda>p. (p - hd w) / hd w * 100) w"
    and "tg = last cum"
    and "length cum = nat period"
proof -
  have ne: "w \<noteq> []" using window_nonempty [OF per] w by simp
  show hd: "hd w = base_price" using g0 getitem_zero [OF ne] by simp
  show cum: "cum = map (\<lambda>p. (p - hd w) / hd w * 100) w"
    using pl base by (simp add: pct_loop_map hd)
  then have "cum \<noteq> []" using ne by simp
  then show "tg = last cum" using gl by (simp add: getitem_last)
  show "length cum = nat period" using window_length [OF per] by (simp add: cum w)
qed




subsection \<open>Curves on the ideal line\<close>

lemma zero_deviation_sum:
  assumes "length cum = nat period"
    and "\<forall>i \<in> set (py_range period). getitem cum i = getitem (ideal_line_of d period) i"
  shows "(\<Sum>i\<leftarrow>py_range period. \<bar>cum ! nat i - ideal_line_of d period ! nat i\<bar>) = 0"
proof -
  have "cum ! nat i = ideal_line_of d period ! nat i" if "i \<in> set (py_range period)" for i
  proof -
    from that have b: "0 \<le> i" "i < period" by (auto dest: py_range_bounds)
    then have "getitem cum i = Inr (cum ! nat i)"
      and "getitem (ideal_line_of d period) i = Inr (ideal_line_of d period ! nat i)"
      using assms(1) by (simp_all add: getitem_def ideal_line_length)
    with assms(2) that show ?thesis by simp
  qed
  then have "map (\<lambda>i. \<bar>cum ! nat i - ideal_line_of d period ! nat i\<bar>) (py_range period)
           = map (\<lambda>i. 0) (py_range period)"
    by simp
  then show ?thesis by (simp only: sum_list_0)
qed

lemma on_the_line_score:
  assumes per: "0 < period" "period \<le> int (length prices)"
    and g0: "getitem (slice_from prices (- period)) 0 = Inr base_price" and base: "0 < base_price"
    and pl: "pct_loop base_price (slice_from prices (- period)) [] = Inr cum"
    and gl: "getitem cum (- 1) = Inr tg" and tg: "0 < tg"
    and line: "\<forall>i \<in> set (py_range period).
                 getitem cum i = getitem (ideal_line_of (tg / of_int (period - 1)) period) i"
  shows "deviation_loop cum (ideal_line_of (tg / of_int (period - 1)) period) tg period
           (py_range period) (0, 0) = Inr (0, tg * of_int (period - 1))"
    and "calculate prices period = Inr (100, round1 tg)"
proof -
  define w where "w = slice_from prices (- period)"
  note sp = source_path [OF per w_def g0 [folded w_def] base pl [folded w_def] gl]
  have b: "0 < hd w" using sp(1) base by simp
  note cn = calculate_normal [OF per w_def b sp(2) sp(3) tg]
  note z = zero_deviation_sum [OF sp(4) line]
  show "deviation_loop cum (ideal_line_of (tg / of_int (period - 1)) period) tg period
           (py_range period) (0, 0) = Inr (0, tg * of_int (period - 1))"
    using deviation_loop_window [OF per(1) sp(4), of "tg / of_int (period - 1)" tg]
    by (simp only: z)
  have "0 < tg * of_int (period - 1)" using cn(1) tg by simp
  then show "calculate prices period = Inr (100, round1 tg)"
    using cn(2) by (simp only: z score_of_zero)
qed

text \<open>A window that is an arithmetic progression lies on its ideal line.\<close>

lemma arithmetic_window:
  assumes n: "2 \<le> n" and b: "0 < b" and d: "0 < d"
    and prices: "prices = pre @ map (\<lambda>i. b + real i * d) [0..<n]"
  shows "getitem (slice_from prices (- int n)) 0 = Inr b"
    and "pct_loop b (slice_from prices (- int n)) [] = Inr (map (\<lambda>i. real i * (d / b * 100)) [0..<n])"
    and "getitem (map (\<lambda>i. real i * (d / b * 100)) [0..<n]) (- 1) = Inr (real (n - 1) * (d / b * 100))"
    and "ideal_line_of (real (n - 1) * (d / b * 100) / of_int (int n - 1)) (int n)
           = map (\<lambda>i. real i * (d / b * 100)) [0..<n]"
proof -
  have per: "0 < int n" "int n \<le> int (length prices)" using n by (simp_all add: prices)
  have w: "slice_from prices (- int n) = map (\<lambda>i. b + real i * d) [0..<n]"
    by (simp add: slice_window [OF per]) (simp add: prices)
  show "getitem (slice_from prices (- int n)) 0 = Inr b"
    using n by (simp add: w getitem_def)
  show "pct_loop b (slice_from prices (- int n)) [] = Inr (map (\<lambda>i. real i * (d / b * 100)) [0..<n])"
    using b by (simp add: w pct_loop_map comp_def)
  have ne: "map (\<lambda>i. real i * (d / b * 100)) [0..<n] \<noteq> []" using n by simp
  show "getitem (map (\<lambda>i. real i * (d / b * 100)) [0..<n]) (- 1) = Inr (real (n - 1) * (d / b * 100))"
  proof -
    have "last (map (\<lambda>i. real i * (d / b * 100)) [0..<n]) = real (n - 1) * (d / b * 100)"
      using n by (simp add: last_map)
    then show ?thesis by (simp only: getitem_last [OF ne])
  qed
  have "real (n - 1) * (d / b * 100) / of_int (int n - 1) = d / b * 100"
    using n by (simp add: of_nat_diff)
  then show "ideal_line_of (real (n - 1) * (d / b * 100) / of_int (int n - 1)) (int n)
           = map (\<lambda>i. real i * (d / b * 100)) [0..<n]"
    by (simp add: ideal_line_of_def py_range_def comp_def)
qed

lemma scenario_prices:
  "[100, 102, 104, 106, 108, 110, 112, 114, 116, 118,
    120, 122, 124, 126, 128, 130, 132, 134, 136, 138,
    140, 142, 144, 146, 148, 150, 152, 154, 156, 158 :: real]
   = [] @ map (\<lambda>i. 100 + real i * 2) [0..<30]"
  by (simp add: upt_rec)

lemma arithmetic_score:
  assumes n: "2 \<le> n" and b: "0 < b" and d: "0 < d"
    and prices: "prices = pre @ map (\<lambda>i. b + real i * d) [0..<n]"
  shows "calculate prices (int n) = Inr (100, round1 (real (n - 1) * (d / b * 100)))"
proof -
  note aw = arithmetic_window [OF n b d prices]
  have per: "0 < int n" "int n \<le> int (length prices)" using n by (simp_all add: prices)
  have tg: "0 < real (n - 1) * (d / b * 100)" using n b d by simp
  have line: "\<forall>i \<in> set (py_range (int n)).
      getitem (map (\<lambda>i. real i * (d / b * 100)) [0..<n]) i =
      getitem (ideal_line_of (real (n - 1) * (d / b * 100) / of_int (int n - 1)) (int n)) i"
    unfolding aw(4) by blast
  show ?thesis
    by (rule on_the_line_score(2) [OF per aw(1) b aw(2) aw(3) tg line])
qed

lemma scenario_run:
  "calculate [100, 102, 104, 106, 108, 110, 112, 114, 116, 118,
    120, 122, 124, 126, 128, 130, 132, 134, 136, 138,
    140, 142, 144, 146, 148, 150, 152, 154, 156, 158] 30 = Inr (100, 58)"
proof -
  have "calculate ([] @ map (\<lambda>i. 100 + real i * 2) [0..<30]) (int 30)
        = Inr (100, round1 (real (30 - 1) * (2 / 100 * 100)))"
    by (rule arithmetic_score [OF _ _ _ refl]) simp_all
  moreover have "round1 (real (30 - 1) * (2 / 100 * 100)) = 58"
    using round1_of_int [of 58] by simp
  ultimately show ?thesis by (simp only: scenario_prices [symmetric]) simp
qed

subsection \<open>Compound growth: a worked run\<close>

lemma round_half_even_near:
  assumes "of_int k - 1 / 2 < y" "y < of_int k + 1 / 2"
  shows "round_half_even y = k"
proof (cases "of_int k \<le> y")
  case True
  then have "\<lfloor>y\<rfloor> = k" using assms by linarith
  then show ?thesis using assms by (simp add: round_half_even_def Let_def)
next
  case False
  then have "\<lfloor>y\<rfloor> = k - 1" using assms by linarith
  then show ?thesis using assms False by (simp add: round_half_even_def Let_def)
qed

lemma round1_near:
  assumes "of_int k - 1 / 2 < x * 10" "x * 10 < of_int k + 1 / 2"
  shows "round1 x = of_int k / 10"
  using round_half_even_near [OF assms] by (simp add: round1_def)

lemma sqrt_84_bounds: "109 / 1000 < sqrt (1 / 84)" "sqrt (1 / 84) < 1095 / 10000"
proof -
  have "(109 / 1000)\<^sup>2 < (1 / 84 :: real)" by (simp add: power2_eq_square)
  then show "109 / 1000 < sqrt (1 / 84)" by (rule real_less_rsqrt)
  have "(1 / 84 :: real) < (1095 / 10000)\<^sup>2" by (simp add: power2_eq_square)
  then show "sqrt (1 / 84) < 1095 / 10000" by (intro real_less_lsqrt) simp_all
qed

lemma compound_score: "round1 (100 * (1 - sqrt (1 / 84))) = 891 / 10"
  using round1_near [of 891 "100 * (1 - sqrt (1 / 84))"] sqrt_84_bounds by simp

lemma compound_run:
  "calculate [100, 110, 121] 3 = Inr (891 / 10, 21)"
proof -
  have w: "slice_from [100, 110, 121 :: real] (- 3) = [100, 110, 121]"
    by (simp add: slice_from_def)
  have pl: "pct_loop 100 [100, 110, 121] [] = Inr [0, 10, 21]"
    by (simp add: truediv_def)
  have r: "py_range 3 = [0, 1, 2]"
    by (simp add: py_range_def upt_rec)
  have dl: "deviation_loop [0, 10, 21] (ideal_line_of (21 / 2) 3) 21 3 [0, 1, 2] (0, 0)
            = Inr (1 / 2, 42)"
    by (simp add: ideal_line_of_def r getitem_def)
  have sc: "score_of (1 / 2) 42 21 = Inr (891 / 10, 21)"
    using round1_of_int [of 21] compound_score
    by (simp add: score_of_def truediv_def py_sqrt_def)
  have g0: "getitem [100, 110, 121 :: real] 0 = Inr 100"
    and gl: "getitem [0, 10, 21 :: real] (- 1) = Inr 21"
    by (simp_all add: getitem_def)
  show ?thesis
    by (simp add: calculate_def w g0 pl gl truediv_def r dl sc del: deviation_loop.simps)
qed

text \<open>
  Claim C4. On the thirty prices 100, 102, up to 158 with \<open>period = 30\<close>,
  \<open>calculate\<close> returns score 100 and gain 58. In general, for a positive \<open>period\<close>:
  when line 30 is reached and the cumulative curve equals the ideal line at every
  index of \<open>range(period)\<close>, the loop ends with \<open>total_deviation = 0\<close> and the
  returned score is 100.
\<close>

theorem linear_scenario:
  "calculate [100, 102, 104, 106, 108, 110, 112, 114, 116, 118,
              120, 122, 124, 126, 128, 130, 132, 134, 136, 138,
              140, 142, 144, 146, 148, 150, 152, 154, 156, 158] 30 = Inr (100, 58) \<and>
   (\<forall>prices period base_price cumulative_pcts total_gain.
      0 < period \<and> period \<le> int (length prices) \<and>
      getitem (slice_from prices (- period)) 0 = Inr base_price \<and> 0 < base_price \<and>
      pct_loop base_price (slice_from prices (- period)) [] = Inr cumulative_pcts \<and>
      getitem cumulative_pcts (- 1) = Inr total_gain \<and> 0 < total_gain \<and>
      (\<forall>i \<in> set (py_range period).
         getitem cumulative_pcts i =
         getitem (ideal_line_of (total_gain / of_int (period - 1)) period) i)
      \<longrightarrow>
      deviation_loop cumulative_pcts (ideal_line_of (total_gain / of_int (period - 1)) period)
        total_gain period (py_range period) (0, 0) = Inr (0, total_gain * of_int (period - 1)) \<and>
      calculate prices period = Inr (100, round1 total_gain))"
  using scenario_run on_the_line_score by blast

theorem linear_scenario_witness:
  "deviation_loop [0, 20, 40] (ideal_line_of (40 / of_int (3 - 1)) 3) 40 3 (py_range 3) (0, 0)
     = Inr (0, 40 * of_int (3 - 1)) \<and>
   calculate [50, 60, 70] 3 = Inr (100, 40)"
proof -
  have w: "slice_from [50, 60, 70 :: real] (- 3) = [50, 60, 70]"
    by (simp add: slice_from_def)
  have g0: "getitem (slice_from [50, 60, 70 :: real] (- 3)) 0 = Inr 50"
    by (simp add: w getitem_def)
  have pl: "pct_loop 50 (slice_from [50, 60, 70] (- 3)) [] = Inr [0, 20, 40]"
    by (simp add: w truediv_def)
  have gl: "getitem [0, 20, 40 :: real] (- 1) = Inr 40"
    by (simp add: getitem_def)
  have r: "py_range 3 = [0, 1, 2]"
    by (simp add: py_range_def upt_rec)
  have line: "\<forall>i \<in> set (py_range 3).
      getitem [0, 20, 40] i = getitem (ideal_line_of (40 / of_int (3 - 1)) 3) i"
    by (simp add: r ideal_line_of_def getitem_def)
  have r40: "round1 40 = 40" using round1_of_int [of 40] by simp
  have hyps: "(0::int) < 3 \<and> 3 \<le> int (length [50, 60, 70 :: real]) \<and>
      getitem (slice_from [50, 60, 70 :: real] (- 3)) 0 = Inr 50 \<and> (0::real) < 50 \<and>
      pct_loop 50 (slice_from [50, 60, 70] (- 3)) [] = Inr [0, 20, 40] \<and>
      getitem [0, 20, 40 :: real] (- 1) = Inr 40 \<and> (0::real) < 40 \<and>
      (\<forall>i \<in> set (py_range 3).
         getitem [0, 20, 40] i = getitem (ideal_line_of (40 / of_int (3 - 1)) 3) i)"
    using g0 pl gl line by simp
  have "deviation_loop [0, 20, 40] (ideal_line_of (40 / of_int (3 - 1)) 3) 40 3 (py_range 3) (0, 0)
          = Inr (0, 40 * of_int (3 - 1)) \<and>
        calculate [50, 60, 70] 3 = Inr (100, round1 40)"
    using linear_scenario hyps by blast
  then show ?thesis by (simp only: r40)
qed

text \<open>
  Claim C6, as stated, fails. The prices 100, 110, 121 grow by ten per cent at each
  step and the total gain, 21, is positive; the cumulative curve is 0, 10, 21, the
  ideal line is 0, 10.5, 21, the total deviation is 0.5 and the score is 89.1.
\<close>

theorem compound_growth_counterexample:
  "(110::real) = 100 * (1 + 1 / 10) \<and> (121::real) = 110 * (1 + 1 / 10) \<and>
   pct_loop 100 (slice_from [100, 110, 121] (- 3)) [] = Inr [0, 10, 21] \<and>
   ideal_line_of (21 / of_int (3 - 1)) 3 = [0, 21 / 2, 21] \<and>
   deviation_loop [0, 10, 21] (ideal_line_of (21 / of_int (3 - 1)) 3) 21 3 (py_range 3) (0, 0)
     = Inr (1 / 2, 42) \<and>
   calculate [100, 110, 121] 3 = Inr (891 / 10, 21)"
proof -
  have w: "slice_from [100, 110, 121 :: real] (- 3) = [100, 110, 121]"
    by (simp add: slice_from_def)
  have r: "py_range 3 = [0, 1, 2]"
    by (simp add: py_range_def upt_rec)
  have il: "ideal_line_of (21 / of_int (3 - 1)) 3 = [0, 21 / 2, 21]"
    by (simp add: ideal_line_of_def r)
  have dl: "deviation_loop [0, 10, 21] (ideal_line_of (21 / of_int (3 - 1)) 3) 21 3
              (py_range 3) (0, 0) = Inr (1 / 2, 42)"
    unfolding il r by (simp add: getitem_def)
  have pl: "pct_loop 100 (slice_from [100, 110, 121] (- 3)) [] = Inr [0, 10, 21]"
    by (simp add: w truediv_def)
  show ?thesis
    using il dl pl compound_run by simp
qed

text \<open>
  Claim C6, amended. In exact arithmetic: when the window of \<open>n \<ge> 2\<close> prices grows
  by the same positive amount \<open>d\<close> at each step from a positive base \<open>b\<close> (a
  constant percentage of the base price, not of the previous price), the cumulative
  curve is the ideal line, the total deviation is 0 and \<open>calculate\<close> returns
  score 100.
\<close>

theorem arithmetic_growth_scores_100:
  assumes "2 \<le> n" "0 < b" "0 < d"
    and "prices = pre @ map (\<lambda>i. b + real i * d) [0..<n]"
  shows "\<exists>cumulative_pcts total_gain.
           pct_loop b (slice_from prices (- int n)) [] = Inr cumulative_pcts \<and>
           getitem cumulative_pcts (- 1) = Inr total_gain \<and> 0 < total_gain \<and>
           cumulative_pcts = ideal_line_of (total_gain / of_int (int n - 1)) (int n) \<and>
           deviation_loop cumulative_pcts
             (ideal_line_of (total_gain / of_int (int n - 1)) (int n))
             total_gain (int n) (py_range (int n)) (0, 0)
             = Inr (0, total_gain * of_int (int n - 1)) \<and>
           calculate prices (int n) = Inr (100, round1 total_gain)"
proof -
  note aw = arithmetic_window [OF assms]
  define cum where "cum = map (\<lambda>i. real i * (d / b * 100)) [0..<n]"
  define tg where "tg = real (n - 1) * (d / b * 100)"
  have per: "0 < int n" "int n \<le> int (length prices)" using assms(1,4) by simp_all
  have tg: "0 < tg" using assms(1-3) by (simp add: tg_def)
  have il: "cum = ideal_line_of (tg / of_int (int n - 1)) (int n)"
    unfolding cum_def tg_def by (rule aw(4) [symmetric])
  then have line: "\<forall>i \<in> set (py_range (int n)).
      getitem cum i = getitem (ideal_line_of (tg / of_int (int n - 1)) (int n)) i"
    by simp
  note ol = on_the_line_score [OF per aw(1) assms(2) aw(2) [folded cum_def]
      aw(3) [folded cum_def tg_def] tg line]
  show ?thesis
    using aw(2) [folded cum_def] aw(3) [folded cum_def tg_def] tg il ol by blast
qed

theorem arithmetic_growth_scores_100_witness:
  "\<exists>cumulative_pcts total_gain.
     pct_loop 50 (slice_from [7, 50, 60, 70] (- int 3)) [] = Inr cumulative_pcts \<and>
     getitem cumulative_pcts (- 1) = Inr total_gain \<and> 0 < total_gain \<and>
     cumulative_pcts = ideal_line_of (total_gain / of_int (int 3 - 1)) (int 3) \<and>
     deviation_loop cumulative_pcts
       (ideal_line_of (total_gain / of_int (int 3 - 1)) (int 3))
       total_gain (int 3) (py_range (int 3)) (0, 0)
       = Inr (0, total_gain * of_int (int 3 - 1)) \<and>
     calculate [7, 50, 60, 70] (int 3) = Inr (100, round1 total_gain)"
proof -
  have p: "[7, 50, 60, 70 :: real] = [7] @ map (\<lambda>i. 50 + real i * 10) [0..<3]"
    by (simp add: upt_rec)
  show ?thesis
    by (rule arithmetic_growth_scores_100 [OF _ _ _ p]) simp_all
qed

subsection \<open>Agreement of the two models\<close>

lemma real_ops_simps:
  "of_py_int real_ops = of_int" "fsub real_ops = (-)" "fadd real_ops = (+)"
  "fmul real_ops = (*)" "fdiv real_ops = truediv" "fabs real_ops = abs"
  "fsqrt real_ops = py_sqrt" "fround1 real_ops = round1"
  "fle real_ops = (\<le>)" "flt real_ops = (<)"
  by (simp_all add: real_ops_def)

lemma pct_loop_on_real: "pct_loop_on real_ops b xs acc = pct_loop b xs acc"
  by (induction xs arbitrary: acc) (simp_all add: real_ops_simps split: sum.splits)

lemma deviation_loop_on_real:
  "deviation_loop_on real_ops cum ideal tg period ixs acc = deviation_loop cum ideal tg period ixs acc"
  by (induction ixs arbitrary: acc) (simp_all add: real_ops_simps split: sum.splits)

lemma py_min_real: "py_min real_ops a b = min a b"
  by (simp add: py_min_def real_ops_simps min_def)

lemma py_max_real: "py_max real_ops a b = max a b"
  by (simp add: py_max_def real_ops_simps max_def)

lemma score_on_real: "score_on real_ops td mpd tg = score_of td mpd tg"
  unfolding score_on_def score_of_def py_min_real py_max_real real_ops_simps
    of_int_numeral of_int_1 of_int_0
  by (rule refl)

lemma calculate_on_real: "calculate_on real_ops prices period = calculate prices period"
  by (simp add: calculate_on_def calculate_def real_ops_simps pct_loop_on_real
      deviation_loop_on_real score_on_real ideal_line_of_def Let_def split: sum.splits)

subsection \<open>A non-positive gain, over any float arithmetic\<close>

lemma pct_loop_on_map:
  assumes "\<forall>p \<in> set xs. \<exists>q. fdiv ops (fsub ops p b) b = Inr q"
  shows "pct_loop_on ops b xs acc =
         Inr (acc @ map (\<lambda>p. fmul ops (projr (fdiv ops (fsub ops p b) b)) (of_py_int ops 100)) xs)"
  using assms
proof (induction xs arbitrary: acc)
  case Nil
  then show ?case by simp
next
  case (Cons p xs)
  then obtain q where q: "fdiv ops (fsub ops p b) b = Inr q" by auto
  show ?case using Cons by (simp add: q)
qed

lemma calculate_on_loss:
  fixes ops :: "'f float_ops"
  assumes per: "0 < period" "period \<le> int (length prices)"
    and div_law: "\<forall>a b. \<not> fle ops b (of_py_int ops 0) \<longrightarrow> (\<exists>q. fdiv ops a b = Inr q)"
    and b: "getitem prices (- period) = Inr b" "\<not> fle ops b (of_py_int ops 0)"
    and l: "getitem prices (- 1) = Inr l"
    and q: "fdiv ops (fsub ops l b) b = Inr q"
    and loss: "fle ops (fmul ops q (of_py_int ops 100)) (of_py_int ops 0)"
  shows "calculate_on ops prices period =
         Inr (of_py_int ops 0, fround1 ops (fmul ops q (of_py_int ops 100)))"
proof -
  define w where "w = slice_from prices (- period)"
  define cum where
    "cum = map (\<lambda>p. fmul ops (projr (fdiv ops (fsub ops p b) b)) (of_py_int ops 100)) w"
  have ne: "w \<noteq> []" using window_nonempty [OF per] by (simp add: w_def)
  have bv: "b = prices ! (length prices - nat period)"
    using b(1) by (simp add: getitem_neg_period [OF per])
  have g0: "getitem w 0 = Inr b" using window_base [OF per] by (simp add: w_def bv)
  have "prices \<noteq> []" using per by auto
  then have lv: "l = last prices" using l by (simp add: getitem_last)
  have lw: "last w = l" using window_last [OF per] by (simp add: w_def lv)
  have "\<forall>p \<in> set w. \<exists>q. fdiv ops (fsub ops p b) b = Inr q"
    using div_law b(2) by blast
  then have pl: "pct_loop_on ops b w [] = Inr cum"
    unfolding cum_def by (simp add: pct_loop_on_map)
  have cne: "cum \<noteq> []" using ne by (simp add: cum_def)
  have "last cum = fmul ops q (of_py_int ops 100)"
    using ne unfolding cum_def by (simp add: last_map lw q)
  then have gl: "getitem cum (- 1) = Inr (fmul ops q (of_py_int ops 100))"
    using cne by (simp add: getitem_last)
  show ?thesis
    using per b(2) loss
    by (simp add: calculate_on_def Let_def w_def [symmetric] g0 pl gl)
qed

text \<open>
  Claim C2. Over any float arithmetic in which a division raises only on a divisor
  that compares \<open>\<le> 0\<close> (in IEEE doubles, only on zero): for a positive \<open>period\<close>, a
  list of at least \<open>period\<close> prices and a base price \<open>b = prices[-period]\<close> that passes
  the guard of line 17, the total gain is \<open>((l - b) / b) * 100\<close> as that arithmetic
  computes it from the last price \<open>l\<close>, and when it compares \<open>\<le> 0\<close> the method returns
  score \<open>0\<close> together with \<open>round(total_gain, 1)\<close>: the gain is reported, not zeroed.
\<close>

theorem nonpositive_gain_any_arithmetic:
  fixes ops :: "'f float_ops"
  assumes "0 < period" "period \<le> int (length prices)"
    and "\<forall>a b. \<not> fle ops b (of_py_int ops 0) \<longrightarrow> (\<exists>q. fdiv ops a b = Inr q)"
    and "getitem prices (- period) = Inr b" "\<not> fle ops b (of_py_int ops 0)"
    and "getitem prices (- 1) = Inr l"
  shows "\<exists>q. fdiv ops (fsub ops l b) b = Inr q \<and>
           (fle ops (fmul ops q (of_py_int ops 100)) (of_py_int ops 0) \<longrightarrow>
            calculate_on ops prices period =
              Inr (of_py_int ops 0, fround1 ops (fmul ops q (of_py_int ops 100))))"
proof -
  obtain q where q: "fdiv ops (fsub ops l b) b = Inr q"
    using assms(3,5) by blast
  show ?thesis
    using q calculate_on_loss [OF assms q] by blast
qed

lemma round1_third: "round1 (- (1 / 3)) = - (3 / 10)"
  using round1_near [of "- 3" "- (1 / 3)"] by simp

theorem nonpositive_gain_any_arithmetic_witness:
  "calculate_on real_ops [300, 299] 2 = Inr (0, - (3 / 10)) \<and>
   calculate [300, 299] 2 = Inr (0, - (3 / 10)) \<and>
   calculate_on real_ops (replicate 29 100 @ [90]) 30 = Inr (0, - 10)"
proof -
  have law: "\<forall>a b. \<not> fle real_ops b (of_py_int real_ops 0) \<longrightarrow> (\<exists>q. fdiv real_ops a b = Inr q)"
    by (simp add: real_ops_simps truediv_def)
  have b1: "getitem [300, 299 :: real] (- 2) = Inr 300"
    and l1: "getitem [300, 299 :: real] (- 1) = Inr 299"
    by (simp_all add: getitem_def)
  have b2: "getitem (replicate 29 100 @ [90]) (- 30) = Inr (100::real)"
    and l2: "getitem (replicate 29 100 @ [90]) (- 1) = Inr (90::real)"
    by (simp_all add: getitem_def nth_append)
  have r10: "round1 (- 10) = - 10" using round1_of_int [of "- 10"] by simp
  have one: "calculate_on real_ops [300, 299] 2 = Inr (0, - (3 / 10))"
    using nonpositive_gain_any_arithmetic [OF _ _ law b1 _ l1]
    by (simp add: real_ops_simps truediv_def round1_third)
  have two: "calculate_on real_ops (replicate 29 100 @ [90]) 30 = Inr (0, - 10)"
    using nonpositive_gain_any_arithmetic [OF _ _ law b2 _ l2]
    by (simp add: real_ops_simps truediv_def r10)
  show ?thesis using one two by (simp add: calculate_on_real)
qed

subsection \<open>Runs through the normalization and the clamps\<close>

text \<open>
  On 100, 300, 150 the normalized deviation is 1.75 and is clamped to 1, which gives
  score 0; on 100, 110, 121 the score is 89.1. Both runs reach lines 46 and 47.
\<close>

lemma overshoot_run:
  "calculate [100, 300, 150] 3 = Inr (0, 50)"
proof -
  have w: "slice_from [100, 300, 150 :: real] (- 3) = [100, 300, 150]"
    by (simp add: slice_from_def)
  have pl: "pct_loop 100 [100, 300, 150] [] = Inr [0, 200, 50]"
    by (simp add: truediv_def)
  have r: "py_range 3 = [0, 1, 2]"
    by (simp add: py_range_def upt_rec)
  have dl: "deviation_loop [0, 200, 50] (ideal_line_of 25 3) 50 3 [0, 1, 2] (0, 0)
            = Inr (175, 100)"
    by (simp add: ideal_line_of_def r getitem_def)
  have sc: "score_of 175 100 50 = Inr (0, 50)"
    using round1_of_int [of 50] round1_zero
    by (simp add: score_of_def truediv_def py_sqrt_def)
  have g0: "getitem [100, 300, 150 :: real] 0 = Inr 100"
    and gl: "getitem [0, 200, 50 :: real] (- 1) = Inr 50"
    by (simp_all add: getitem_def)
  show ?thesis
    by (simp add: calculate_def w g0 pl gl truediv_def r dl sc del: deviation_loop.simps)
qed

theorem score_in_range_witness:
  "calculate [100, 300, 150] 3 = Inr (0, 50) \<and>
   calculate [100, 110, 121] 3 = Inr (891 / 10, 21) \<and>
   (\<exists>s g. calculate [100, 300, 150] 3 = Inr (s, g) \<and> 0 \<le> s \<and> s \<le> 100) \<and>
   (\<exists>s g. calculate [100, 110, 121] 3 = Inr (s, g) \<and> 0 \<le> s \<and> s \<le> 100)"
  using score_in_range [of 3 "[100, 300, 150]"] score_in_range [of 3 "[100, 110, 121]"]
    overshoot_run compound_run
  by simp

subsection \<open>Scale invariance\<close>

lemma slice_from_map: "slice_from (map f xs) s = map f (slice_from xs s)"
  by (simp add: slice_from_def Let_def drop_map)

lemma getitem_map:
  "getitem (map f xs) i = (case getitem xs i of Inl e \<Rightarrow> Inl e | Inr x \<Rightarrow> Inr (f x))"
  by (simp add: getitem_def Let_def)

lemma pct_loop_scale:
  assumes "0 < b" "0 < c"
  shows "pct_loop (c * b) (map ((*) c) w) acc = pct_loop b w acc"
proof -
  have "(c * p - c * b) / (c * b) * 100 = (p - b) / b * 100" for p
  proof -
    have "c * p - c * b = c * (p - b)" by (simp add: algebra_simps)
    then show ?thesis using assms by simp
  qed
  then show ?thesis using assms by (simp add: pct_loop_map comp_def)
qed

text \<open>
  Claim C10. For a positive \<open>period\<close> and a positive factor \<open>c\<close>, multiplying every
  price by \<open>c\<close> does not change what \<open>calculate\<close> returns.
\<close>

theorem scale_invariance:
  assumes "0 < period" "0 < c"
  shows "calculate (map ((*) c) prices) period = calculate prices period"
proof (cases "getitem (slice_from prices (- period)) 0")
  case (Inl e)
  then show ?thesis
    by (simp add: calculate_def slice_from_map getitem_map)
next
  case (Inr base_price)
  show ?thesis
  proof (cases "base_price \<le> 0")
    case True
    then have "c * base_price \<le> 0" using assms(2) by (simp add: mult_le_0_iff)
    with True Inr show ?thesis
      by (simp add: calculate_def slice_from_map getitem_map)
  next
    case False
    then have "\<not> c * base_price \<le> 0" using assms(2) by (simp add: mult_le_0_iff)
    with False Inr show ?thesis
      using assms(2) by (simp add: calculate_def slice_from_map getitem_map pct_loop_scale)
  qed
qed

theorem scale_invariance_witness:
  "calculate (map ((*) 3) [100, 110, 121]) 3 = Inr (891 / 10, 21)"
  using scale_invariance [of 3 3 "[100, 110, 121]"] compound_run by simp

subsection \<open>Score categories\<close>

text \<open>
  Claim C7, as stated, fails on the returned string: for score 95 and gain 10 the
  method does not return the label \<open>Perfect\<close> but that label followed by a space
  and a pictograph, which is none of the seven bare labels.
\<close>

theorem category_label_counterexample:
  "get_score_category 95 10 \<noteq> ''Perfect'' \<and>
   get_score_category 95 10 = ''Perfect '' @ [CHR 0xF0, CHR 0x9F, CHR 0x8F, CHR 0x86] \<and>
   get_score_category 95 10 \<notin> set [''Negative Return'', ''Perfect'', ''Excellent'', ''Good'',
                                     ''Fair'', ''Poor'', ''Bad'']"
  by (simp add: get_score_category_def trophy_def)

text \<open>
  Claim C7, amended. \<open>get_score_category\<close> tests, in this order, \<open>gain \<le> 0\<close>,
  \<open>score \<ge> 90\<close>, \<open>score \<ge> 75\<close>, \<open>score \<ge> 60\<close>, \<open>score \<ge> 45\<close>, \<open>score \<ge> 20\<close>, and the
  first test that holds decides the result: the label Negative Return, Perfect,
  Excellent, Good, Fair, Poor, or else Bad, each followed by a space and its
  pictograph. A non-positive gain gives Negative Return whatever the score, and
  the seven strings are pairwise different.
\<close>

theorem category_precedence:
  "(gain \<le> 0 \<longrightarrow> get_score_category score gain = ''Negative Return '' @ chart_down) \<and>
   (0 < gain \<and> 90 \<le> score \<longrightarrow> get_score_category score gain = ''Perfect '' @ trophy) \<and>
   (0 < gain \<and> 75 \<le> score \<and> score < 90 \<longrightarrow>
      get_score_category score gain = ''Excellent '' @ chart_up) \<and>
   (0 < gain \<and> 60 \<le> score \<and> score < 75 \<longrightarrow>
      get_score_category score gain = ''Good '' @ bar_chart) \<and>
   (0 < gain \<and> 45 \<le> score \<and> score < 60 \<longrightarrow>
      get_score_category score gain = ''Fair '' @ chart_down) \<and>
   (0 < gain \<and> 20 \<le> score \<and> score < 45 \<longrightarrow>
      get_score_category score gain = ''Poor '' @ warning_sign) \<and>
   (0 < gain \<and> score < 20 \<longrightarrow> get_score_category score gain = ''Bad '' @ cross_mark) \<and>
   distinct [''Negative Return '' @ chart_down, ''Perfect '' @ trophy,
             ''Excellent '' @ chart_up, ''Good '' @ bar_chart, ''Fair '' @ chart_down,
             ''Poor '' @ warning_sign, ''Bad '' @ cross_mark]"
  by (simp add: get_score_category_def)

theorem category_precedence_witness:
  "get_score_category 100 0 = ''Negative Return '' @ chart_down \<and>
   get_score_category 90 1 = ''Perfect '' @ trophy \<and>
   get_score_category 75 1 = ''Excellent '' @ chart_up \<and>
   get_score_category 60 1 = ''Good '' @ bar_chart \<and>
   get_score_category 45 1 = ''Fair '' @ chart_down \<and>
   get_score_category 20 1 = ''Poor '' @ warning_sign \<and>
   get_score_category 19 1 = ''Bad '' @ cross_mark"
  using category_precedence [of 0 100] category_precedence [of 1 90]
    category_precedence [of 1 75] category_precedence [of 1 60]
    category_precedence [of 1 45] category_precedence [of 1 20]
    category_precedence [of 1 19]
  by simp

end
